theory Spec2Isabelle
  imports Complex_Main "HOL-Library.AList"
begin

section \<open>Errors and results\<close>

text \<open>
  The exceptions of \<^verbatim>\<open>dataprovider/transformer.py\<close> are values. \<open>AssertionError\<close>,
  \<open>KeyError\<close>, \<open>ValueError\<close>, \<open>IndexError\<close> and \<open>NotImplementedError\<close> are the Python
  exceptions the file itself can raise (an \<^verbatim>\<open>assert\<close>, a dictionary lookup, a tuple
  unpacking, an array index, the interface method). \<open>TypeError\<close> is Python's exception
  for an argument of the wrong type, which nothing in the file raises, and \<open>ShapeError\<close>
  is the error kind the specification gives to helpers that reject a shape.
\<close>

datatype error =
    AssertionError | KeyError | TypeError | ValueError | IndexError | NotImplementedError
  | ShapeError

text \<open>
  A method that mutates an object either returns or raises; in both cases the object is
  left in some state, which the result carries.
\<close>

datatype 's result = Return 's | Raise error 's

definition bind_e :: "error + 'a \<Rightarrow> ('a \<Rightarrow> error + 'b) \<Rightarrow> error + 'b" where
  "bind_e m f = (case m of Inl e \<Rightarrow> Inl e | Inr x \<Rightarrow> f x)"

definition bind_r :: "'s result \<Rightarrow> ('s \<Rightarrow> 's result) \<Rightarrow> 's result" where
  "bind_r r f = (case r of Return s \<Rightarrow> f s | Raise e s \<Rightarrow> Raise e s)"

section \<open>Arrays\<close>

text \<open>
  A NumPy array is its shape and its values in row-major order. Values are exact
  rationals: the rounding of \<^verbatim>\<open>float32\<close> is not modelled, so \<^verbatim>\<open>astype('float32')\<close>
  only copies.
\<close>

datatype volume = Vol (shape: "nat list") (vals: "rat list")

definition zeros :: "nat list \<Rightarrow> volume" where
  "zeros sh = Vol sh (replicate (prod_list sh) 0)"

definition ones :: "nat list \<Rightarrow> volume" where
  "ones sh = Vol sh (replicate (prod_list sh) 1)"

definition astype_float32 :: "volume \<Rightarrow> volume" where
  "astype_float32 v = v"

text \<open>\<^verbatim>\<open>shape[-3:]\<close>: the last three axes, or all of them when there are fewer.\<close>

definition last3 :: "nat list \<Rightarrow> nat list" where
  "last3 sh = drop (length sh - 3) sh"

text \<open>\<^verbatim>\<open>a[c,...]\<close>, read.\<close>

definition get_channel :: "volume \<Rightarrow> nat \<Rightarrow> error + volume" where
  "get_channel a c =
     (case shape a of
        [] \<Rightarrow> Inl IndexError
      | n # sh \<Rightarrow>
          if c < n
          then Inr (Vol sh (take (prod_list sh) (drop (c * prod_list sh) (vals a))))
          else Inl IndexError)"

text \<open>
  \<^verbatim>\<open>np.zeros(shape)\<close> with \<^verbatim>\<open>shape = (n,) + sp\<close>, after each \<^verbatim>\<open>a[i,...]\<close> has been
  filled through its view.
\<close>

definition stack :: "nat list \<Rightarrow> volume list \<Rightarrow> volume" where
  "stack sp vs = Vol (length vs # sp) (concat (map vals vs))"

text \<open>
  \<^verbatim>\<open>a[..., i, j, k] = c\<close> on an array with at least three axes: the entry \<open>(i, j, k)\<close>
  of the last three axes is set for every index of the leading ones. An index outside
  its axis raises \<open>IndexError\<close>.
\<close>

definition set_last3 :: "volume \<Rightarrow> nat \<Rightarrow> nat \<Rightarrow> nat \<Rightarrow> rat \<Rightarrow> error + volume" where
  "set_last3 a i j k c =
     (case last3 (shape a) of
        [z, y, x] \<Rightarrow>
          if i < z \<and> j < y \<and> k < x
          then Inr (Vol (shape a)
                 (map (\<lambda>p. if p mod (z * y * x) = (i * y + j) * x + k then c else vals a ! p)
                      [0..<length (vals a)]))
          else Inl IndexError
      | _ \<Rightarrow> Inl IndexError)"

section \<open>Samples and call parameters\<close>

text \<open>
  A sample is a Python dictionary from keys to arrays, kept in insertion order:
  \<^const>\<open>AList.update\<close> replaces the value of a key that is present and puts a new key
  last. The call parameters \<^verbatim>\<open>**kwargs\<close> map names to a number or \<^verbatim>\<open>None\<close>.
\<close>

type_synonym sample = "(string \<times> volume) list"

type_synonym kwargs = "(string \<times> rat option) list"

type_synonym offset = "int \<times> int \<times> int"

definition keys :: "sample \<Rightarrow> string set" where
  "keys s = fst ` set s"

section \<open>Functions called by the transforms and defined elsewhere\<close>

text \<open>
  \<^verbatim>\<open>transformer.py\<close> calls functions of the modules \<^verbatim>\<open>transform\<close> (as \<^verbatim>\<open>tf\<close>),
  \<^verbatim>\<open>utils\<close> and \<^verbatim>\<open>datatools\<close>, and two broadcasting operations of NumPy. They are
  parameters of the model, and every one of them may raise.
  \<^item> \<open>affinitize ops seg ret dst\<close> and \<open>affinitize_mask ops msk ret dst\<close> stand for the
    calls with \<^verbatim>\<open>ret=a[i,...]\<close>: they give the contents of the view \<open>ret\<close> after the call.
  \<^item> \<open>rebalance_binary_class ops lbl msk base_w\<close> has \<open>base_w = None\<close> where the call
    passes no \<^verbatim>\<open>base_w\<close>.
  \<^item> \<open>crop ops v offset size\<close> has \<open>size = None\<close> where \<^verbatim>\<open>crop_size\<close> is \<^verbatim>\<open>None\<close>.
  \<^item> \<open>binarize_object ops seg object_id\<close> has \<open>object_id = None\<close> for \<^verbatim>\<open>None\<close>.
  \<^item> \<open>np_imul ops a b\<close> is \<^verbatim>\<open>a *= b\<close> and \<open>np_set_channel ops a c v\<close> is
    \<^verbatim>\<open>a[c,...] = v\<close>; both give the new contents of \<open>a\<close>.
\<close>

record ops =
  multiclass_expansion :: "volume \<Rightarrow> rat list \<Rightarrow> error + (volume \<times> volume)"
  rebalance_binary_class :: "volume \<Rightarrow> volume \<Rightarrow> rat option \<Rightarrow> error + volume"
  affinitize :: "volume \<Rightarrow> volume \<Rightarrow> offset \<Rightarrow> error + volume"
  affinitize_mask :: "volume \<Rightarrow> volume \<Rightarrow> offset \<Rightarrow> error + volume"
  crop :: "volume \<Rightarrow> offset \<Rightarrow> offset option \<Rightarrow> error + volume"
  binarize :: "volume \<Rightarrow> error + volume"
  binarize_object :: "volume \<Rightarrow> rat option \<Rightarrow> error + volume"
  check_volume :: "volume \<Rightarrow> error + volume"
  get_segmentation :: "volume \<Rightarrow> error + volume"
  np_imul :: "volume \<Rightarrow> volume \<Rightarrow> error + volume"
  np_set_channel :: "volume \<Rightarrow> nat \<Rightarrow> volume \<Rightarrow> error + volume"

section \<open>Transforms\<close>

text \<open>
  The class \<^verbatim>\<open>Transform\<close> and its subclasses, each with the attributes its
  \<^verbatim>\<open>__init__\<close> sets, in the order of the parameters. \<open>Transform\<close> is an instance of the
  interface itself.
\<close>

datatype transform =
    Transform
  | Boundary string string bool
  | Segmentation string string bool
  | Affinity "offset list" string string "offset option" "offset option" "rat option" bool
  | Semantic "rat list" string string bool
  | Synapse string string bool rat
  | ObjectInstance string string bool
  | CenterInstance string string "string option" bool

text \<open>\<^verbatim>\<open>Transform.extract\<close>: the array under \<open>key\<close> and its mask, all ones by default.\<close>

definition Transform_extract :: "sample \<Rightarrow> string \<Rightarrow> error + (volume \<times> volume)" where
  "Transform_extract sample key =
     (case map_of sample key of
        None \<Rightarrow> Inl AssertionError
      | Some v \<Rightarrow>
          (case map_of sample (key @ ''_mask'') of
             Some m \<Rightarrow> Inr (v, astype_float32 m)
           | None \<Rightarrow> Inr (v, ones (shape v))))"

text \<open>
  The two assignments that end most transforms:
  \<^verbatim>\<open>sample[target] = lbl; sample[target+'_mask'] = msk\<close>.
\<close>

definition update_sample :: "sample \<Rightarrow> string \<Rightarrow> volume \<Rightarrow> volume \<Rightarrow> sample" where
  "update_sample sample target lbl msk =
     AList.update (target @ ''_mask'') msk (AList.update target lbl sample)"

text \<open>
  A transform that computes label and mask first and assigns both afterwards: an
  exception of the computation leaves the sample as it was.
\<close>

definition commit :: "sample \<Rightarrow> string \<Rightarrow> error + (volume \<times> volume) \<Rightarrow> sample result" where
  "commit sample target r =
     (case r of
        Inl e \<Rightarrow> Raise e sample
      | Inr (lbl, msk) \<Rightarrow> Return (update_sample sample target lbl msk))"

subsection \<open>Boundary\<close>

definition Boundary_label ::
  "ops \<Rightarrow> string \<Rightarrow> bool \<Rightarrow> sample \<Rightarrow> error + (volume \<times> volume)" where
  "Boundary_label p source rebalance sample =
     bind_e (Transform_extract sample source) (\<lambda>(bdr, msk).
     bind_e (multiclass_expansion p bdr [0]) (\<lambda>(lbl, _).
     bind_e (if rebalance then rebalance_binary_class p lbl msk None else Inr msk) (\<lambda>msk.
     Inr (lbl, msk))))"

subsection \<open>Recomputing connected components\<close>

text \<open>
  The block shared by \<^verbatim>\<open>Segmentation\<close> and \<^verbatim>\<open>Affinity\<close>: three affinity maps along
  x, y and z, written into the channels of \<^verbatim>\<open>aff\<close>, then \<^verbatim>\<open>get_segmentation(aff)\<close>.
\<close>

definition recompute :: "ops \<Rightarrow> volume \<Rightarrow> error + volume" where
  "recompute p seg =
     (let sp = last3 (shape seg) in
      bind_e (affinitize p seg (zeros sp) (0, 0, 1)) (\<lambda>a0.
      bind_e (affinitize p seg (zeros sp) (0, 1, 0)) (\<lambda>a1.
      bind_e (affinitize p seg (zeros sp) (1, 0, 0)) (\<lambda>a2.
      get_segmentation p (stack sp [a0, a1, a2])))))"

subsection \<open>Segmentation\<close>

definition Segmentation_source ::
  "ops \<Rightarrow> string \<Rightarrow> bool \<Rightarrow> sample \<Rightarrow> error + (volume \<times> volume)" where
  "Segmentation_source p source recomp sample =
     bind_e (Transform_extract sample source) (\<lambda>(seg, msk).
     bind_e (if recomp then recompute p seg else Inr seg) (\<lambda>seg.
     Inr (seg, msk)))"

text \<open>
  Each of the two assignments evaluates \<^verbatim>\<open>utils.check_volume\<close> on its right-hand side:
  the second call runs when the target has already been assigned.
\<close>

definition Segmentation_call ::
  "ops \<Rightarrow> string \<Rightarrow> string \<Rightarrow> bool \<Rightarrow> sample \<Rightarrow> sample result" where
  "Segmentation_call p source target recomp sample =
     (case Segmentation_source p source recomp sample of
        Inl e \<Rightarrow> Raise e sample
      | Inr (seg, msk) \<Rightarrow>
          (case check_volume p (astype_float32 seg) of
             Inl e \<Rightarrow> Raise e sample
           | Inr lbl \<Rightarrow>
               (let sample1 = AList.update target lbl sample in
                case check_volume p (astype_float32 msk) of
                  Inl e \<Rightarrow> Raise e sample1
                | Inr m \<Rightarrow> Return (AList.update (target @ ''_mask'') m sample1))))"

subsection \<open>Affinity\<close>

text \<open>The loop over \<^verbatim>\<open>enumerate(self.dst)\<close>, one label and one mask channel a turn.\<close>

fun affinitize_all ::
  "ops \<Rightarrow> volume \<Rightarrow> volume \<Rightarrow> nat list \<Rightarrow> offset list \<Rightarrow> error + (volume list \<times> volume list)"
where
  "affinitize_all p seg msk sp [] = Inr ([], [])"
| "affinitize_all p seg msk sp (d # ds) =
     bind_e (affinitize p seg (zeros sp) d) (\<lambda>a.
     bind_e (affinitize_mask p msk (zeros sp) d) (\<lambda>m.
     bind_e (affinitize_all p seg msk sp ds) (\<lambda>(as, ms).
     Inr (a # as, m # ms))))"

text \<open>
  The rebalancing loops
  \<^verbatim>\<open>msk[c,...] = tf.rebalance_binary_class(lbl[c,...], msk[c,...], ...)\<close>
  over the channels \<open>cs\<close>.
\<close>

fun rebalance_channels ::
  "ops \<Rightarrow> volume \<Rightarrow> rat option \<Rightarrow> nat list \<Rightarrow> volume \<Rightarrow> error + volume" where
  "rebalance_channels p lbl base_w [] msk = Inr msk"
| "rebalance_channels p lbl base_w (c # cs) msk =
     bind_e (get_channel lbl c) (\<lambda>l.
     bind_e (get_channel msk c) (\<lambda>m.
     bind_e (rebalance_binary_class p l m base_w) (\<lambda>w.
     bind_e (np_set_channel p msk c w) (\<lambda>msk.
     rebalance_channels p lbl base_w cs msk))))"

definition Affinity_label ::
  "ops \<Rightarrow> offset list \<Rightarrow> string \<Rightarrow> rat option \<Rightarrow> bool \<Rightarrow> sample \<Rightarrow> error + (volume \<times> volume)"
where
  "Affinity_label p dst source base_w recomp sample =
     bind_e (Transform_extract sample source) (\<lambda>(seg, msk).
     bind_e (if recomp then recompute p seg else Inr seg) (\<lambda>seg.
     let sp = last3 (shape seg) in
     bind_e (affinitize_all p seg msk sp dst) (\<lambda>(affs, msks).
     let lbl = stack sp affs; msk = stack sp msks in
     bind_e (case base_w of
               None \<Rightarrow> Inr msk
             | Some w \<Rightarrow> rebalance_channels p lbl (Some w) [0..<hd (shape lbl)] msk) (\<lambda>msk.
     Inr (lbl, msk)))))"

text \<open>
  The cropping loop \<^verbatim>\<open>for k, v in sample.items(): sample[k] = tf.crop(v, ...)\<close>.
  The items are those of the sample when the loop starts; an exception leaves the
  entries assigned so far cropped.
\<close>

fun crop_items ::
  "ops \<Rightarrow> offset \<Rightarrow> offset option \<Rightarrow> (string \<times> volume) list \<Rightarrow> sample \<Rightarrow> sample result" where
  "crop_items p off csize [] sample = Return sample"
| "crop_items p off csize ((k, v) # kvs) sample =
     (case crop p v off csize of
        Inl e \<Rightarrow> Raise e sample
      | Inr v' \<Rightarrow> crop_items p off csize kvs (AList.update k v' sample))"

definition Affinity_call ::
  "ops \<Rightarrow> offset list \<Rightarrow> string \<Rightarrow> string \<Rightarrow> offset option \<Rightarrow> offset option \<Rightarrow> rat option
     \<Rightarrow> bool \<Rightarrow> sample \<Rightarrow> sample result" where
  "Affinity_call p dst source target crop_off crop_size base_w recomp sample =
     bind_r (commit sample target (Affinity_label p dst source base_w recomp sample))
       (\<lambda>sample.
          case crop_off of
            None \<Rightarrow> Return sample
          | Some off \<Rightarrow> crop_items p off crop_size sample sample)"

subsection \<open>Semantic\<close>

definition Semantic_label ::
  "ops \<Rightarrow> rat list \<Rightarrow> string \<Rightarrow> bool \<Rightarrow> sample \<Rightarrow> error + (volume \<times> volume)" where
  "Semantic_label p ids source rebalance sample =
     bind_e (Transform_extract sample source) (\<lambda>(sem, msk).
     bind_e (multiclass_expansion p sem ids) (\<lambda>(lbl, msk2).
     bind_e (np_imul p msk msk2) (\<lambda>msk.
     bind_e (if rebalance then rebalance_channels p lbl None [0..<length ids] msk
             else Inr msk) (\<lambda>msk.
     Inr (lbl, msk)))))"

subsection \<open>Synapse\<close>

definition Synapse_label ::
  "ops \<Rightarrow> string \<Rightarrow> bool \<Rightarrow> rat \<Rightarrow> sample \<Rightarrow> error + (volume \<times> volume)" where
  "Synapse_label p source rebalance base_w sample =
     bind_e (Transform_extract sample source) (\<lambda>(syn, msk).
     bind_e (binarize p syn) (\<lambda>lbl.
     bind_e (if rebalance then rebalance_binary_class p lbl msk (Some base_w)
             else Inr msk) (\<lambda>msk.
     Inr (lbl, msk))))"

subsection \<open>ObjectInstance and CenterInstance\<close>

text \<open>\<^verbatim>\<open>kwargs['object_id'] if 'object_id' in kwargs else None\<close>.\<close>

definition object_id_of :: "kwargs \<Rightarrow> rat option" where
  "object_id_of kw = (case map_of kw ''object_id'' of Some v \<Rightarrow> v | None \<Rightarrow> None)"

definition ObjectInstance_label ::
  "ops \<Rightarrow> string \<Rightarrow> bool \<Rightarrow> sample \<Rightarrow> kwargs \<Rightarrow> error + (volume \<times> volume)" where
  "ObjectInstance_label p source rebalance sample kw =
     bind_e (Transform_extract sample source) (\<lambda>(seg, msk).
     bind_e (binarize_object p seg (object_id_of kw)) (\<lambda>lbl.
     bind_e (if rebalance then rebalance_binary_class p lbl msk None else Inr msk) (\<lambda>msk.
     Inr (lbl, msk))))"

definition ObjectInstance_call ::
  "ops \<Rightarrow> string \<Rightarrow> string \<Rightarrow> bool \<Rightarrow> sample \<Rightarrow> kwargs \<Rightarrow> sample result" where
  "ObjectInstance_call p source target rebalance sample kw =
     commit sample target (ObjectInstance_label p source rebalance sample kw)"

text \<open>
  The mask of \<^verbatim>\<open>CenterInstance\<close>: \<^verbatim>\<open>seg = sample[self.source]\<close> is a plain lookup,
  \<^verbatim>\<open>z, y, x = seg.shape[-3:]\<close> needs three axes, and
  \<^verbatim>\<open>mask[...,z//2,y//2,x//2] = 1\<close> an entry at that index.
\<close>

definition center_mask :: "sample \<Rightarrow> string \<Rightarrow> error + volume" where
  "center_mask sample source =
     (case map_of sample source of
        None \<Rightarrow> Inl KeyError
      | Some seg \<Rightarrow>
          (case last3 (shape seg) of
             [z, y, x] \<Rightarrow> set_last3 (zeros (shape seg)) (z div 2) (y div 2) (x div 2) 1
           | _ \<Rightarrow> Inl ValueError))"

definition CenterInstance_call ::
  "ops \<Rightarrow> string \<Rightarrow> string \<Rightarrow> string option \<Rightarrow> bool \<Rightarrow> sample \<Rightarrow> kwargs \<Rightarrow> sample result"
where
  "CenterInstance_call p source target mask_key rebalance sample kw =
     (case mask_key of
        None \<Rightarrow> ObjectInstance_call p source target rebalance sample kw
      | Some mk \<Rightarrow>
          (case center_mask sample source of
             Inl e \<Rightarrow> Raise e sample
           | Inr m \<Rightarrow>
               ObjectInstance_call p source target rebalance (AList.update mk m sample) kw))"

subsection \<open>Calling a transform\<close>

fun call :: "ops \<Rightarrow> transform \<Rightarrow> sample \<Rightarrow> kwargs \<Rightarrow> sample result" where
  "call p Transform sample kw = Raise NotImplementedError sample"
| "call p (Boundary source target rebalance) sample kw =
     commit sample target (Boundary_label p source rebalance sample)"
| "call p (Segmentation source target recomp) sample kw =
     Segmentation_call p source target recomp sample"
| "call p (Affinity dst source target crop_off crop_size base_w recomp) sample kw =
     Affinity_call p dst source target crop_off crop_size base_w recomp sample"
| "call p (Semantic ids source target rebalance) sample kw =
     commit sample target (Semantic_label p ids source rebalance sample)"
| "call p (Synapse source target rebalance base_w) sample kw =
     commit sample target (Synapse_label p source rebalance base_w sample)"
| "call p (ObjectInstance source target rebalance) sample kw =
     ObjectInstance_call p source target rebalance sample kw"
| "call p (CenterInstance source target mask_key rebalance) sample kw =
     CenterInstance_call p source target mask_key rebalance sample kw"

section \<open>Transformer\<close>

text \<open>
  \<^verbatim>\<open>Transformer\<close> holds the list \<^verbatim>\<open>_transforms\<close>. \<^verbatim>\<open>append\<close> receives any Python
  object; only an instance of \<^verbatim>\<open>Transform\<close> or of a subclass passes its assertion.
\<close>

record transformer =
  transforms :: "transform list"

datatype pyobject =
    Instance transform
  | PyNone
  | PyInt int
  | PyStr string
  | PyList "pyobject list"

definition Transformer_init :: transformer where
  "Transformer_init = \<lparr>transforms = []\<rparr>"

text \<open>\<^verbatim>\<open>isinstance(tf, Transform)\<close>.\<close>

fun isinstance_Transform :: "pyobject \<Rightarrow> bool" where
  "isinstance_Transform (Instance tf) = True"
| "isinstance_Transform obj = False"

fun append :: "transformer \<Rightarrow> pyobject \<Rightarrow> transformer result" where
  "append self (Instance tf) = Return (self\<lparr>transforms := transforms self @ [tf]\<rparr>)"
| "append self obj = Raise AssertionError self"

text \<open>The loop of \<^verbatim>\<open>Transformer.__call__\<close> over the transforms that remain.\<close>

fun run :: "ops \<Rightarrow> transform list \<Rightarrow> sample \<Rightarrow> kwargs \<Rightarrow> sample result" where
  "run p [] sample kw = Return sample"
| "run p (tf # tfs) sample kw =
     (case call p tf sample kw of
        Return sample' \<Rightarrow> run p tfs sample' kw
      | Raise e sample' \<Rightarrow> Raise e sample')"

definition Transformer_call :: "ops \<Rightarrow> transformer \<Rightarrow> sample \<Rightarrow> kwargs \<Rightarrow> sample result" where
  "Transformer_call p self sample kw = run p (transforms self) sample kw"

section \<open>The helpers as the specification describes them\<close>

text \<open>
  The modules \<^verbatim>\<open>transform\<close> and \<^verbatim>\<open>utils\<close> are not among the sources, and
  \<^verbatim>\<open>datatools\<close> is another package. The definitions of this section follow the
  specification's description of each helper (its sections 3, 4.1, 4.2 and 7). They
  instantiate the parameters \<^typ>\<open>ops\<close> wherever a concrete run is evaluated, and the
  theorems on \<^verbatim>\<open>binarize_object\<close> and \<^verbatim>\<open>crop\<close> are stated for them.
\<close>

text \<open>
  Modelled from the spec: the voxel \<open>v+offset\<close> of section 4.1, used by
  \<^verbatim>\<open>tf.affinitize\<close>, \<^verbatim>\<open>tf.affinitize_mask\<close> and \<^verbatim>\<open>datatools.get_segmentation\<close>,
  which are missing from the sources. A voxel of a \<open>(z, y, x)\<close> volume is its row-major
  position \<open>p\<close>; \<open>shifted z y x p d\<close> is the position of the voxel displaced by \<open>d\<close>, if
  that is inside the volume.
\<close>

definition shifted :: "nat \<Rightarrow> nat \<Rightarrow> nat \<Rightarrow> nat \<Rightarrow> offset \<Rightarrow> nat option" where
  "shifted z y x p d =
     (case d of (dz, dy, dx) \<Rightarrow>
        let i = int (p div (y * x)) + dz;
            j = int (p div x mod y) + dy;
            k = int (p mod x) + dx
        in if 0 \<le> i \<and> i < int z \<and> 0 \<le> j \<and> j < int y \<and> 0 \<le> k \<and> k < int x
           then Some (nat ((i * int y + j) * int x + k))
           else None)"

text \<open>
  Modelled from the spec: \<^verbatim>\<open>tf.affinitize\<close>, missing from the sources. Section 4.1:
  1.0 where \<open>seg[v] = seg[v+offset]\<close> and \<open>seg[v] \<noteq> 0\<close>, 0.0 elsewhere and where the
  shifted voxel leaves the volume; the result has the shape of \<open>seg\<close>. Only \<open>(z, y, x)\<close>
  volumes are described; any other shape is rejected.
\<close>

definition affinitize_spec :: "volume \<Rightarrow> volume \<Rightarrow> offset \<Rightarrow> error + volume" where
  "affinitize_spec seg ret dst =
     (case shape seg of
        [z, y, x] \<Rightarrow>
          Inr (Vol [z, y, x]
            (map (\<lambda>p. case shifted z y x p dst of
                         None \<Rightarrow> 0
                       | Some q \<Rightarrow>
                           if vals seg ! p = vals seg ! q \<and> vals seg ! p \<noteq> 0 then 1 else 0)
                 [0..<z * y * x]))
      | _ \<Rightarrow> Inl ShapeError)"

text \<open>
  Modelled from the spec: \<^verbatim>\<open>tf.affinitize_mask\<close>, missing from the sources.
  Section 4.1: 1.0 only where both \<open>mask[v]\<close> and \<open>mask[v+offset]\<close> are nonzero.
\<close>

definition affinitize_mask_spec :: "volume \<Rightarrow> volume \<Rightarrow> offset \<Rightarrow> error + volume" where
  "affinitize_mask_spec msk ret dst =
     (case shape msk of
        [z, y, x] \<Rightarrow>
          Inr (Vol [z, y, x]
            (map (\<lambda>p. case shifted z y x p dst of
                         None \<Rightarrow> 0
                       | Some q \<Rightarrow> if vals msk ! p \<noteq> 0 \<and> vals msk ! q \<noteq> 0 then 1 else 0)
                 [0..<z * y * x]))
      | _ \<Rightarrow> Inl ShapeError)"

text \<open>
  Modelled from the spec: the connected-component labelling of section 4.1, for
  \<^verbatim>\<open>datatools.get_segmentation\<close>, which is missing from the sources. Labels spread
  along the edges of the affinity graph: in each round a voxel takes the least label
  among its own and its neighbours'. As many rounds as there are voxels reach every
  voxel of a component.
\<close>

fun propagate :: "nat \<Rightarrow> (nat \<Rightarrow> nat list) \<Rightarrow> nat list \<Rightarrow> nat list" where
  "propagate 0 nb ls = ls"
| "propagate (Suc r) nb ls =
     propagate r nb (map (\<lambda>p. fold min (map (\<lambda>q. ls ! q) (nb p)) (ls ! p)) [0..<length ls])"

definition axis_offsets :: "offset list" where
  "axis_offsets = [(0, 0, 1), (0, 1, 0), (1, 0, 0)]"

definition negate :: "offset \<Rightarrow> offset" where
  "negate d = (case d of (dz, dy, dx) \<Rightarrow> (- dz, - dy, - dx))"

text \<open>
  Modelled from the spec: the adjacency of section 4.1, for
  \<^verbatim>\<open>datatools.get_segmentation\<close>. The neighbours of voxel \<open>p\<close> are \<open>p + d\<close> where
  channel \<open>c\<close> is 1.0 at \<open>p\<close>, and \<open>p - d\<close> where it is 1.0 at \<open>p - d\<close>, for the offset
  \<open>d\<close> of each channel \<open>c\<close>: \<open>(0, 0, 1)\<close>, \<open>(0, 1, 0)\<close> and \<open>(1, 0, 0)\<close>, as the callers
  fill the channels.
\<close>

definition neighbours :: "volume \<Rightarrow> nat \<Rightarrow> nat \<Rightarrow> nat \<Rightarrow> nat \<Rightarrow> nat list" where
  "neighbours aff z y x p =
     concat (map (\<lambda>c.
        (case shifted z y x p (axis_offsets ! c) of
           None \<Rightarrow> []
         | Some q \<Rightarrow> if vals aff ! (c * (z * y * x) + p) = 1 then [q] else []) @
        (case shifted z y x p (negate (axis_offsets ! c)) of
           None \<Rightarrow> []
         | Some q \<Rightarrow> if vals aff ! (c * (z * y * x) + q) = 1 then [q] else []))
       [0..<3])"

text \<open>
  Modelled from the spec: \<^verbatim>\<open>datatools.get_segmentation\<close>, of another package.
  Section 4.1, \<^verbatim>\<open>recompute_segmentation\<close>: connected components of the lattice whose
  edge along an axis exists where that axis's affinity is 1.0. The voxels of a
  component share a positive ID, here one more than the least position in it. The
  specification leaves open what a voxel without any edge receives: with \<open>singletons\<close>
  it is an ID of its own, without it the background 0.
\<close>

definition get_segmentation_spec :: "bool \<Rightarrow> volume \<Rightarrow> error + volume" where
  "get_segmentation_spec singletons aff =
     (case shape aff of
        [c, z, y, x] \<Rightarrow>
          if c = 3
          then (let n = z * y * x;
                    nb = neighbours aff z y x;
                    ls = propagate n nb [0..<n]
                in Inr (Vol [z, y, x]
                     (map (\<lambda>p. if nb p = [] \<and> \<not> singletons then 0
                                else of_nat (Suc (ls ! p)))
                          [0..<n])))
          else Inl ShapeError
      | _ \<Rightarrow> Inl ShapeError)"

text \<open>
  Modelled from the spec: \<^verbatim>\<open>tf.multiclass_expansion\<close>, missing from the sources.
  Section 4.1: one channel per ID marking the voxels equal to it, and a mask that is
  0.0, in every channel, at the voxels whose value is 0.
\<close>

definition multiclass_expansion_spec :: "volume \<Rightarrow> rat list \<Rightarrow> error + (volume \<times> volume)" where
  "multiclass_expansion_spec v ids =
     Inr (Vol (length ids # shape v)
            (concat (map (\<lambda>i. map (\<lambda>a. if a = i then 1 else 0) (vals v)) ids)),
          Vol (length ids # shape v)
            (concat (map (\<lambda>i. map (\<lambda>a. if a = 0 then 0 else 1) (vals v)) ids)))"

text \<open>
  Modelled from the spec: \<^verbatim>\<open>tf.binarize\<close>, missing from the sources. Section 4.1:
  1.0 if nonzero, else 0.0.
\<close>

definition binarize_spec :: "volume \<Rightarrow> error + volume" where
  "binarize_spec v = Inr (Vol (shape v) (map (\<lambda>a. if a = 0 then 0 else 1) (vals v)))"

text \<open>
  Modelled from the spec: the center voxel of section 4.1, for \<^verbatim>\<open>tf.binarize_object\<close>,
  which is missing from the sources. It is the position of
  \<open>(z div 2, y div 2, x div 2)\<close> in a volume with a single index on the axes before the
  last three and no empty axis.
\<close>

definition center_voxel :: "nat list \<Rightarrow> nat option" where
  "center_voxel sh =
     (case last3 sh of
        [z, y, x] \<Rightarrow>
          if prod_list (take (length sh - 3) sh) = 1 \<and> 0 < z \<and> 0 < y \<and> 0 < x
          then Some ((z div 2 * y + y div 2) * x + x div 2)
          else None
      | _ \<Rightarrow> None)"

text \<open>
  Modelled from the spec: \<^verbatim>\<open>tf.binarize_object\<close>, missing from the sources.
  Section 4.1: 1.0 at the voxels equal to the target ID and 0.0 at all others; without
  an ID, the target is the ID at the center voxel. A volume that has no single center
  voxel is rejected.
\<close>

definition binarize_object_spec :: "volume \<Rightarrow> rat option \<Rightarrow> error + volume" where
  "binarize_object_spec v object_id =
     (case object_id of
        Some i \<Rightarrow> Inr (Vol (shape v) (map (\<lambda>a. if a = i then 1 else 0) (vals v)))
      | None \<Rightarrow>
          (case center_voxel (shape v) of
             None \<Rightarrow> Inl ShapeError
           | Some c \<Rightarrow>
               Inr (Vol (shape v) (map (\<lambda>a. if a = vals v ! c then 1 else 0) (vals v)))))"

text \<open>
  Modelled from the spec: the bounds of section 4.1, for \<^verbatim>\<open>tf.crop\<close>, which is missing
  from the sources. The box of size \<open>(sz, sy, sx)\<close> at \<open>(oz, oy, ox)\<close> in the last three
  axes lies inside an array of shape \<open>sh\<close>.
\<close>

definition box_fits :: "nat list \<Rightarrow> offset \<Rightarrow> offset \<Rightarrow> bool" where
  "box_fits sh off bsize =
     (case (last3 sh, off, bsize) of
        ([z, y, x], (oz, oy, ox), (sz, sy, sx)) \<Rightarrow>
          0 \<le> oz \<and> 0 \<le> oy \<and> 0 \<le> ox \<and> 0 \<le> sz \<and> 0 \<le> sy \<and> 0 \<le> sx \<and>
          oz + sz \<le> int z \<and> oy + sy \<le> int y \<and> ox + sx \<le> int x
      | _ \<Rightarrow> False)"

text \<open>
  Modelled from the spec: the sub-box of section 4.1, for \<^verbatim>\<open>tf.crop\<close>. For every index
  \<open>b\<close> of the leading axes, output position \<open>((b * sz + i) * sy + j) * sx + k\<close> holds the
  input's value at \<open>((b * z + oz + i) * y + oy + j) * x + ox + k\<close>.
\<close>

definition sub_box :: "volume \<Rightarrow> nat \<times> nat \<times> nat \<Rightarrow> nat \<times> nat \<times> nat \<Rightarrow> volume" where
  "sub_box v off bsize =
     (case (last3 (shape v), off, bsize) of
        ([z, y, x], (oz, oy, ox), (sz, sy, sx)) \<Rightarrow>
          (let lead = take (length (shape v) - 3) (shape v) in
           Vol (lead @ [sz, sy, sx])
             (map (\<lambda>q. let b = q div (sz * sy * sx);
                            i = q div (sy * sx) mod sz;
                            j = q div sx mod sy;
                            k = q mod sx
                        in vals v ! (((b * z + oz + i) * y + oy + j) * x + ox + k))
                  [0..<prod_list lead * sz * sy * sx]))
      | _ \<Rightarrow> v)"

text \<open>
  Modelled from the spec: \<^verbatim>\<open>tf.crop\<close>, missing from the sources. Section 4.1: the
  axis-aligned sub-box, or \<open>ShapeError\<close> if \<open>offset+size\<close> exceeds the bounds. The
  specification's \<^verbatim>\<open>crop\<close> always has a size; a call without one is rejected.
\<close>

definition crop_spec :: "volume \<Rightarrow> offset \<Rightarrow> offset option \<Rightarrow> error + volume" where
  "crop_spec v off csize =
     (case csize of
        None \<Rightarrow> Inl ShapeError
      | Some bsize \<Rightarrow>
          if box_fits (shape v) off bsize
          then (case (off, bsize) of
                  ((oz, oy, ox), (sz, sy, sx)) \<Rightarrow>
                    Inr (sub_box v (nat oz, nat oy, nat ox) (nat sz, nat sy, nat sx)))
          else Inl ShapeError)"

text \<open>
  Modelled from the spec: \<^verbatim>\<open>tf.rebalance_binary_class\<close>, missing from the sources.
  Section 4.2: with \<open>n1\<close> and \<open>n0\<close> the numbers of valid voxels of label 1 and 0 and
  \<open>n = n0 + n1\<close>, the mask is returned unchanged if either is 0; otherwise it is scaled
  by \<open>w1 = n / (2 * n1)\<close> where the label is 1 and by \<open>w0 = n / (2 * n0)\<close>, raised to
  \<open>base_w * w1\<close> if that is larger, where it is 0. Section 7: a label and a mask of
  different shapes are a \<open>ShapeError\<close>.
\<close>

definition rebalance_binary_class_spec ::
  "volume \<Rightarrow> volume \<Rightarrow> rat option \<Rightarrow> error + volume" where
  "rebalance_binary_class_spec lbl msk base_w =
     (if shape lbl \<noteq> shape msk then Inl ShapeError
      else (let lm = zip (vals lbl) (vals msk);
                n1 = length (filter (\<lambda>(l, m). l = 1 \<and> 0 < m) lm);
                n0 = length (filter (\<lambda>(l, m). l = 0 \<and> 0 < m) lm);
                n = n0 + n1
            in if n1 = 0 \<or> n0 = 0 then Inr msk
               else (let w1 = of_nat n / (2 * of_nat n1);
                         w0 = of_nat n / (2 * of_nat n0);
                         w0' = (case base_w of None \<Rightarrow> w0 | Some b \<Rightarrow> max w0 (b * w1))
                     in Inr (Vol (shape msk)
                          (map (\<lambda>(l, m). if l = 1 then m * w1
                                          else if l = 0 then m * w0' else m) lm)))))"

text \<open>
  Modelled from the spec: \<^verbatim>\<open>utils.check_volume\<close>, missing from the sources.
  Section 4.3 has the segmentation and its mask put into the form of a volume, which
  section 3 gives the shapes \<open>(z, y, x)\<close> and \<open>(channel, z, y, x)\<close>; arrays of these
  shapes are returned as they are and any other one is rejected.
\<close>

definition check_volume_spec :: "volume \<Rightarrow> error + volume" where
  "check_volume_spec v =
     (if length (shape v) = 3 \<or> length (shape v) = 4 then Inr v else Inl ShapeError)"

text \<open>
  NumPy's \<^verbatim>\<open>a *= b\<close> and \<^verbatim>\<open>a[c,...] = v\<close> for operands whose shapes agree. NumPy
  also accepts some operands of different shapes by broadcasting; that is not
  modelled, and every such pair raises here.
\<close>

definition np_imul_plain :: "volume \<Rightarrow> volume \<Rightarrow> error + volume" where
  "np_imul_plain a b =
     (if shape a = shape b then Inr (Vol (shape a) (map2 (*) (vals a) (vals b)))
      else Inl ValueError)"

definition np_set_channel_plain :: "volume \<Rightarrow> nat \<Rightarrow> volume \<Rightarrow> error + volume" where
  "np_set_channel_plain a c v =
     (case shape a of
        [] \<Rightarrow> Inl IndexError
      | n # sh \<Rightarrow>
          if c < n
          then (if shape v = sh
                then Inr (Vol (n # sh)
                       (take (c * prod_list sh) (vals a) @ vals v @
                        drop (Suc c * prod_list sh) (vals a)))
                else Inl ValueError)
          else Inl IndexError)"

text \<open>
  The helpers of this section together; \<open>singletons\<close> is the choice the specification
  leaves open for voxels without edges.
\<close>

definition spec_ops :: "bool \<Rightarrow> ops" where
  "spec_ops singletons =
     \<lparr>multiclass_expansion = multiclass_expansion_spec,
      rebalance_binary_class = rebalance_binary_class_spec,
      affinitize = affinitize_spec,
      affinitize_mask = affinitize_mask_spec,
      crop = crop_spec,
      binarize = binarize_spec,
      binarize_object = binarize_object_spec,
      check_volume = check_volume_spec,
      get_segmentation = get_segmentation_spec singletons,
      np_imul = np_imul_plain,
      np_set_channel = np_set_channel_plain\<rparr>"

section \<open>Properties of transforms used by the theorems\<close>

text \<open>\<^verbatim>\<open>self.target\<close>, which the interface itself does not have.\<close>

fun target :: "transform \<Rightarrow> string option" where
  "target Transform = None"
| "target (Boundary source tgt rebalance) = Some tgt"
| "target (Segmentation source tgt recomp) = Some tgt"
| "target (Affinity dst source tgt crop_off crop_size base_w recomp) = Some tgt"
| "target (Semantic ids source tgt rebalance) = Some tgt"
| "target (Synapse source tgt rebalance base_w) = Some tgt"
| "target (ObjectInstance source tgt rebalance) = Some tgt"
| "target (CenterInstance source tgt mask_key rebalance) = Some tgt"

text \<open>
  The transforms whose assignments to the sample all come after the last call that may
  raise: all but \<^verbatim>\<open>Segmentation\<close>, \<^verbatim>\<open>Affinity\<close> with a crop offset and
  \<^verbatim>\<open>CenterInstance\<close> with a mask key.
\<close>

fun assigns_last :: "transform \<Rightarrow> bool" where
  "assigns_last (Segmentation source tgt recomp) = False"
| "assigns_last (Affinity dst source tgt (Some off) crop_size base_w recomp) = False"
| "assigns_last (CenterInstance source tgt (Some mk) rebalance) = False"
| "assigns_last tf = True"

text \<open>
  The axes before the last three, and the entry of an array at the index \<open>(b, i, j, k)\<close>:
  \<open>i\<close>, \<open>j\<close> and \<open>k\<close> index the last three axes and \<open>b\<close> counts the indices of the
  leading axes in row-major order (\<open>b = 0\<close> for a \<open>(z, y, x)\<close> volume, the channel for a
  \<open>(channel, z, y, x)\<close> one).
\<close>

definition leading :: "nat list \<Rightarrow> nat list" where
  "leading sh = take (length sh - 3) sh"

definition at4 :: "volume \<Rightarrow> nat \<Rightarrow> nat \<Rightarrow> nat \<Rightarrow> nat \<Rightarrow> rat" where
  "at4 v b i j k =
     (case last3 (shape v) of
        [z, y, x] \<Rightarrow> vals v ! (((b * z + i) * y + j) * x + k)
      | _ \<Rightarrow> 0)"

text \<open>
  The target ID of \<^verbatim>\<open>ObjectInstance\<close> in the specification's words: the call parameter
  \<^verbatim>\<open>object_id\<close> when it is supplied, and otherwise the ID at the center voxel of the
  source volume.
\<close>

definition target_id :: "kwargs \<Rightarrow> volume \<Rightarrow> rat option" where
  "target_id kw seg =
     (case map_of kw ''object_id'' of
        Some (Some oid) \<Rightarrow> Some oid
      | _ \<Rightarrow> map_option (\<lambda>c. vals seg ! c) (center_voxel (shape seg)))"


section \<open>Basic lemmas\<close>

lemma bind_e_simps [simp]:
  "bind_e (Inl e) f = Inl e" "bind_e (Inr x) f = f x"
  by (simp_all add: bind_e_def)

lemma bind_r_simps [simp]:
  "bind_r (Return s) f = f s" "bind_r (Raise e s) f = Raise e s"
  by (simp_all add: bind_r_def)

lemma keys_update [simp]: "keys (AList.update k v s) = insert k (keys s)"
  by (simp add: keys_def dom_update)

lemma map_of_None_keys: "map_of s k = None \<longleftrightarrow> k \<notin> keys s"
  by (simp add: keys_def map_of_eq_None_iff)

section \<open>The pipeline is a fold\<close>

lemma append_all:
  "foldl (\<lambda>r tf. bind_r r (\<lambda>self. append self (Instance tf))) (Return \<lparr>transforms = pre\<rparr>) tfs
     = Return \<lparr>transforms = pre @ tfs\<rparr>"
  by (induction tfs arbitrary: pre) simp_all

lemma foldl_Raise:
  "foldl (\<lambda>r tf. bind_r r (\<lambda>s. call p tf s kw)) (Raise e s) tfs = Raise e s"
  by (induction tfs) simp_all

lemma run_foldl:
  "run p tfs sample kw = foldl (\<lambda>r tf. bind_r r (\<lambda>s. call p tf s kw)) (Return sample) tfs"
proof (induction tfs arbitrary: sample)
  case Nil
  show ?case by simp
next
  case (Cons tf tfs)
  show ?case
  proof (cases "call p tf sample kw")
    case (Return s')
    then show ?thesis using Cons.IH [of s'] by simp
  next
    case (Raise e s')
    then show ?thesis by (simp add: foldl_Raise)
  qed
qed

text \<open>
  Claim C1. Appending the transforms \<open>tfs\<close> one by one to a new \<^verbatim>\<open>Transformer\<close>
  gives the list \<open>tfs\<close> in that order, and calling a \<^verbatim>\<open>Transformer\<close> on a sample is
  the fold, from the left, of its list: every transform is called on the sample the
  previous one returned, with the same \<open>kw\<close>, and none is left out. An exception of a
  transform ends the fold with that exception.
\<close>

theorem Transformer_call_is_fold:
  "foldl (\<lambda>r tf. bind_r r (\<lambda>self. append self (Instance tf))) (Return Transformer_init) tfs
     = Return \<lparr>transforms = tfs\<rparr>
   \<and> Transformer_call p self sample kw
     = foldl (\<lambda>r tf. bind_r r (\<lambda>s. call p tf s kw)) (Return sample) (transforms self)"
  using append_all [of "[]" tfs]
  by (simp add: Transformer_init_def Transformer_call_def run_foldl)

text \<open>
  Claim C10. A \<^verbatim>\<open>Transformer\<close> to which nothing has been appended returns the sample
  it is given, whatever the call parameters.
\<close>

theorem Transformer_empty_is_identity:
  "Transformer_call p Transformer_init sample kw = Return sample"
  by (simp add: Transformer_call_def Transformer_init_def)

section \<open>Failures of \<^verbatim>\<open>extract\<close> and \<^verbatim>\<open>append\<close>\<close>

text \<open>
  Claim C6, as the code has it. \<^verbatim>\<open>extract\<close> fails when the key is absent from the
  sample, and the exception is the \<open>AssertionError\<close> of its first statement
  \<^verbatim>\<open>assert key in sample\<close>.
\<close>

theorem extract_absent_key:
  "key \<notin> keys sample \<Longrightarrow> Transform_extract sample key = Inl AssertionError"
  by (simp add: Transform_extract_def map_of_None_keys [symmetric])

theorem extract_absent_key_witness:
  "''seg'' \<notin> keys [(''img'', Vol [1] [0])]
   \<and> Transform_extract [(''img'', Vol [1] [0])] ''seg'' = Inl AssertionError"
  using extract_absent_key [of "''seg''" "[(''img'', Vol [1] [0])]"] by (simp add: keys_def)

text \<open>
  Claim C6, as stated, fails: for a sample without the key \<^verbatim>\<open>seg\<close> the exception is
  not a \<open>KeyError\<close>.
\<close>

theorem extract_not_KeyError:
  "''seg'' \<notin> keys [(''img'', Vol [1] [0])]
   \<and> Transform_extract [(''img'', Vol [1] [0])] ''seg'' \<noteq> Inl KeyError"
  by (simp add: keys_def Transform_extract_def)

text \<open>
  Claim C7, as the code has it. Appending an object that is not an instance of
  \<^verbatim>\<open>Transform\<close> fails with the \<open>AssertionError\<close> of
  \<^verbatim>\<open>assert isinstance(tf, Transform)\<close>, and the list of transforms is as before.
\<close>

theorem append_non_Transform:
  "\<not> isinstance_Transform obj \<Longrightarrow> append self obj = Raise AssertionError self"
  by (cases obj) simp_all

theorem append_non_Transform_witness:
  "\<not> isinstance_Transform (PyStr ''Boundary'')
   \<and> append \<lparr>transforms = [Boundary ''seg'' ''bdr'' True]\<rparr> (PyStr ''Boundary'')
       = Raise AssertionError \<lparr>transforms = [Boundary ''seg'' ''bdr'' True]\<rparr>"
  using append_non_Transform
          [of "PyStr ''Boundary''" "\<lparr>transforms = [Boundary ''seg'' ''bdr'' True]\<rparr>"]
  by simp

text \<open>
  Claim C7, as stated, fails: appending \<^verbatim>\<open>None\<close> to a new \<^verbatim>\<open>Transformer\<close> does not
  raise a \<open>TypeError\<close>.
\<close>

theorem append_not_TypeError:
  "\<not> isinstance_Transform PyNone
   \<and> append Transformer_init PyNone \<noteq> Raise TypeError Transformer_init"
  by simp

section \<open>Targets and their masks\<close>

lemma commit_Return:
  "commit s t r = Return s' \<Longrightarrow> keys s \<subseteq> keys s' \<and> t \<in> keys s' \<and> t @ ''_mask'' \<in> keys s'"
  by (auto simp: commit_def update_sample_def split: sum.splits prod.splits)

lemma commit_Raise: "commit s t r = Raise e s' \<Longrightarrow> s' = s"
  by (auto simp: commit_def split: sum.splits prod.splits)

lemma crop_items_keys:
  "crop_items p off csize kvs s = Return s' \<Longrightarrow> keys s \<subseteq> keys s'"
proof (induction kvs arbitrary: s)
  case Nil
  then show ?case by simp
next
  case (Cons kv kvs)
  obtain k v where kv: "kv = (k, v)" by (cases kv)
  from Cons.prems kv obtain v' where
    "crop_items p off csize kvs (AList.update k v' s) = Return s'"
    by (auto split: sum.splits)
  from Cons.IH [OF this] show ?case by auto
qed

lemma Segmentation_call_Return:
  "Segmentation_call p source t recomp s = Return s'
   \<Longrightarrow> keys s \<subseteq> keys s' \<and> t \<in> keys s' \<and> t @ ''_mask'' \<in> keys s'"
  by (auto simp: Segmentation_call_def Let_def split: sum.splits prod.splits)

lemma Affinity_call_Return:
  assumes "Affinity_call p dst source t crop_off crop_size base_w recomp s = Return s'"
  shows "keys s \<subseteq> keys s' \<and> t \<in> keys s' \<and> t @ ''_mask'' \<in> keys s'"
proof -
  from assms obtain s1 where
    c: "commit s t (Affinity_label p dst source base_w recomp s) = Return s1" and
    r: "(case crop_off of None \<Rightarrow> Return s1 | Some off \<Rightarrow> crop_items p off crop_size s1 s1)
          = Return s'"
    by (cases "commit s t (Affinity_label p dst source base_w recomp s)")
       (simp_all add: Affinity_call_def)
  from r have "keys s1 \<subseteq> keys s'"
    by (cases crop_off) (auto dest: crop_items_keys)
  with commit_Return [OF c] show ?thesis by auto
qed

lemma ObjectInstance_call_Return:
  "ObjectInstance_call p source t rebalance s kw = Return s'
   \<Longrightarrow> keys s \<subseteq> keys s' \<and> t \<in> keys s' \<and> t @ ''_mask'' \<in> keys s'"
  unfolding ObjectInstance_call_def by (rule commit_Return)

lemma CenterInstance_call_Return:
  assumes "CenterInstance_call p source t mask_key rebalance s kw = Return s'"
  shows "keys s \<subseteq> keys s' \<and> t \<in> keys s' \<and> t @ ''_mask'' \<in> keys s'"
proof (cases mask_key)
  case None
  with assms show ?thesis
    by (simp add: CenterInstance_call_def ObjectInstance_call_Return)
next
  case (Some mk)
  with assms obtain m where
    "ObjectInstance_call p source t rebalance (AList.update mk m s) kw = Return s'"
    by (auto simp: CenterInstance_call_def split: sum.splits)
  from ObjectInstance_call_Return [OF this] show ?thesis by auto
qed

lemma call_Return_both:
  assumes "call p tf s kw = Return s'"
  shows "keys s \<subseteq> keys s' \<and> (target tf = Some t \<longrightarrow> t \<in> keys s' \<and> t @ ''_mask'' \<in> keys s')"
proof (cases tf)
  case Transform
  with assms show ?thesis by simp
next
  case (Boundary source tgt rebalance)
  with assms commit_Return [of s tgt _ s'] show ?thesis by auto
next
  case (Segmentation source tgt recomp)
  with assms Segmentation_call_Return [of p source tgt recomp s s'] show ?thesis by auto
next
  case (Affinity dst source tgt crop_off crop_size base_w recomp)
  with assms Affinity_call_Return [of p dst source tgt crop_off crop_size base_w recomp s s']
  show ?thesis by auto
next
  case (Semantic ids source tgt rebalance)
  with assms commit_Return [of s tgt _ s'] show ?thesis by auto
next
  case (Synapse source tgt rebalance base_w)
  with assms commit_Return [of s tgt _ s'] show ?thesis by auto
next
  case (ObjectInstance source tgt rebalance)
  with assms ObjectInstance_call_Return [of p source tgt rebalance s kw s'] show ?thesis by auto
next
  case (CenterInstance source tgt mask_key rebalance)
  with assms CenterInstance_call_Return [of p source tgt mask_key rebalance s kw s']
  show ?thesis by auto
qed

lemma call_Return:
  assumes "call p tf s kw = Return s'"
  shows "keys s \<subseteq> keys s'"
    and "target tf = Some t \<Longrightarrow> t \<in> keys s' \<and> t @ ''_mask'' \<in> keys s'"
  using call_Return_both [OF assms] by simp_all

lemma run_Return:
  assumes "run p tfs s kw = Return s'"
  shows "keys s \<subseteq> keys s'"
    and "tf \<in> set tfs \<Longrightarrow> target tf = Some t \<Longrightarrow> t \<in> keys s' \<and> t @ ''_mask'' \<in> keys s'"
  using assms
proof (induction tfs arbitrary: s)
  case Nil
  { case 1 then show ?case by simp }
  { case 2 then show ?case by simp }
next
  case (Cons a tfs)
  { case 1
    then obtain s1 where a: "call p a s kw = Return s1" and r: "run p tfs s1 kw = Return s'"
      by (auto split: result.splits)
    from call_Return(1) [OF a] Cons.IH(1) [OF r] show ?case by blast }
  { case 2
    from \<open>run p (a # tfs) s kw = Return s'\<close>
    obtain s1 where a: "call p a s kw = Return s1" and r: "run p tfs s1 kw = Return s'"
      by (auto split: result.splits)
    show ?case
    proof (cases "tf = a")
      case True
      with call_Return(2) [OF a] 2 have "t \<in> keys s1 \<and> t @ ''_mask'' \<in> keys s1" by simp
      with Cons.IH(1) [OF r] show ?thesis by blast
    next
      case False
      with 2 have "tf \<in> set tfs" by simp
      from Cons.IH(2) [OF this \<open>target tf = Some t\<close> r] show ?thesis .
    qed }
qed

text \<open>
  Claim C2. When a \<^verbatim>\<open>Transformer\<close> returns, that is when every one of its transforms
  has returned, the sample it returns has, for every transform \<open>tf\<close> of its list, the
  key \<^verbatim>\<open>tf.target\<close> and the key \<^verbatim>\<open>tf.target + '_mask'\<close>.
\<close>

theorem targets_present:
  assumes "Transformer_call p self sample kw = Return sample'"
    and "tf \<in> set (transforms self)" and "target tf = Some t"
  shows "t \<in> keys sample' \<and> t @ ''_mask'' \<in> keys sample'"
  using assms run_Return(2) by (simp add: Transformer_call_def)

theorem targets_present_witness:
  "Transformer_call (spec_ops True)
     \<lparr>transforms = [Segmentation ''seg'' ''seg'' True, ObjectInstance ''seg'' ''lbl'' True]\<rparr>
     [(''seg'', Vol [1, 1, 3] [5, 7, 5])] [(''object_id'', Some 3)]
   = Return [(''seg'', Vol [1, 1, 3] [1, 2, 3]), (''seg_mask'', Vol [1, 1, 3] [1, 1, 1]),
             (''lbl'', Vol [1, 1, 3] [0, 0, 1]),
             (''lbl_mask'', Vol [1, 1, 3] [3 / 4, 3 / 4, 3 / 2])]
   \<and> ObjectInstance ''seg'' ''lbl'' True
       \<in> set (transforms \<lparr>transforms = [Segmentation ''seg'' ''seg'' True,
                                          ObjectInstance ''seg'' ''lbl'' True]\<rparr>)
   \<and> target (ObjectInstance ''seg'' ''lbl'' True) = Some ''lbl''
   \<and> ''lbl'' \<in> keys [(''seg'', Vol [1, 1, 3] [1, 2, 3]), (''seg_mask'', Vol [1, 1, 3] [1, 1, 1]),
             (''lbl'', Vol [1, 1, 3] [0, 0, 1]),
             (''lbl_mask'', Vol [1, 1, 3] [3 / 4, 3 / 4, 3 / 2])]
   \<and> ''lbl'' @ ''_mask'' \<in> keys [(''seg'', Vol [1, 1, 3] [1, 2, 3]),
             (''seg_mask'', Vol [1, 1, 3] [1, 1, 1]), (''lbl'', Vol [1, 1, 3] [0, 0, 1]),
             (''lbl_mask'', Vol [1, 1, 3] [3 / 4, 3 / 4, 3 / 2])]"
proof -
  have run: "Transformer_call (spec_ops True)
     \<lparr>transforms = [Segmentation ''seg'' ''seg'' True, ObjectInstance ''seg'' ''lbl'' True]\<rparr>
     [(''seg'', Vol [1, 1, 3] [5, 7, 5])] [(''object_id'', Some 3)]
   = Return [(''seg'', Vol [1, 1, 3] [1, 2, 3]), (''seg_mask'', Vol [1, 1, 3] [1, 1, 1]),
             (''lbl'', Vol [1, 1, 3] [0, 0, 1]),
             (''lbl_mask'', Vol [1, 1, 3] [3 / 4, 3 / 4, 3 / 2])]"
    by code_simp
  have mem: "ObjectInstance ''seg'' ''lbl'' True
       \<in> set (transforms \<lparr>transforms = [Segmentation ''seg'' ''seg'' True,
                                          ObjectInstance ''seg'' ''lbl'' True]\<rparr>)"
    by simp
  have tgt: "target (ObjectInstance ''seg'' ''lbl'' True) = Some ''lbl''" by simp
  from targets_present [OF run mem tgt] run mem tgt show ?thesis by blast
qed

section \<open>What an exception leaves in the sample\<close>

lemma Segmentation_call_Raise:
  assumes "Segmentation_call p source tgt recomp s = Raise e s'"
  shows "s' = s \<or> (\<exists>lbl. s' = AList.update tgt lbl s)"
  using assms
  by (auto simp: Segmentation_call_def Let_def split: sum.splits prod.splits)

lemma Affinity_call_Raise:
  assumes "Affinity_call p dst source tgt None crop_size base_w recomp s = Raise e s'"
  shows "s' = s"
  using assms
  by (cases "commit s tgt (Affinity_label p dst source base_w recomp s)")
     (auto simp: Affinity_call_def dest: commit_Raise)

lemma ObjectInstance_call_Raise:
  "ObjectInstance_call p source tgt rebalance s kw = Raise e s' \<Longrightarrow> s' = s"
  unfolding ObjectInstance_call_def by (rule commit_Raise)

lemma CenterInstance_call_Raise:
  assumes "CenterInstance_call p source tgt (Some mk) rebalance s kw = Raise e s'"
  shows "s' = s \<or> (\<exists>m. center_mask s source = Inr m \<and> s' = AList.update mk m s)"
  using assms
  by (auto simp: CenterInstance_call_def split: sum.splits dest: ObjectInstance_call_Raise)

text \<open>
  Claim C5, as the code has it. When a transform raises, whatever the helpers do:
  \<^item> \<^verbatim>\<open>Boundary\<close>, \<^verbatim>\<open>Semantic\<close>, \<^verbatim>\<open>Synapse\<close>, \<^verbatim>\<open>ObjectInstance\<close>, \<^verbatim>\<open>Affinity\<close>
    without a crop offset, \<^verbatim>\<open>CenterInstance\<close> without a mask key and the interface
    itself leave the sample as it was;
  \<^item> \<^verbatim>\<open>Segmentation\<close> leaves it as it was or with the target key alone assigned (its
    second \<^verbatim>\<open>check_volume\<close> runs between the two assignments);
  \<^item> \<^verbatim>\<open>CenterInstance\<close> with a mask key leaves it as it was or with the mask key alone
    assigned, to the center mask (the \<^verbatim>\<open>ObjectInstance\<close> logic runs after that
    assignment).
  Nothing is said of \<^verbatim>\<open>Affinity\<close> with a crop offset.
\<close>

theorem failure_leaves_sample:
  assumes "call p tf sample kw = Raise e sample'"
  shows "(assigns_last tf \<longrightarrow> sample' = sample)
    \<and> (\<forall>source tgt recomp. tf = Segmentation source tgt recomp \<longrightarrow>
          sample' = sample \<or> (\<exists>lbl. sample' = AList.update tgt lbl sample))
    \<and> (\<forall>source tgt mk rebalance. tf = CenterInstance source tgt (Some mk) rebalance \<longrightarrow>
          sample' = sample
          \<or> (\<exists>m. center_mask sample source = Inr m \<and> sample' = AList.update mk m sample))"
proof (cases tf)
  case Transform
  with assms show ?thesis by auto
next
  case (Boundary source tgt rebalance)
  with assms show ?thesis by (auto dest: commit_Raise)
next
  case (Segmentation source tgt recomp)
  with assms Segmentation_call_Raise [of p source tgt recomp sample e sample']
  show ?thesis by auto
next
  case (Affinity dst source tgt crop_off crop_size base_w recomp)
  show ?thesis
  proof (cases crop_off)
    case None
    with Affinity assms
      Affinity_call_Raise [of p dst source tgt crop_size base_w recomp sample e sample']
    show ?thesis by auto
  next
    case (Some off)
    with Affinity show ?thesis by simp
  qed
next
  case (Semantic ids source tgt rebalance)
  with assms show ?thesis by (auto dest: commit_Raise)
next
  case (Synapse source tgt rebalance base_w)
  with assms show ?thesis by (auto dest: commit_Raise)
next
  case (ObjectInstance source tgt rebalance)
  with assms show ?thesis by (auto dest: ObjectInstance_call_Raise)
next
  case (CenterInstance source tgt mask_key rebalance)
  show ?thesis
  proof (cases mask_key)
    case None
    with CenterInstance assms show ?thesis
      by (auto simp: CenterInstance_call_def dest: ObjectInstance_call_Raise)
  next
    case (Some mk)
    with CenterInstance assms
      CenterInstance_call_Raise [of p source tgt mk rebalance sample kw e sample']
    show ?thesis by auto
  qed
qed

text \<open>
  A sample whose source mask has another shape than the source. \<^verbatim>\<open>ObjectInstance\<close>
  raises in the rebalancing and leaves the sample as it was; \<^verbatim>\<open>Segmentation\<close> raises
  in the check of the mask and leaves the target assigned.
\<close>

theorem failure_leaves_sample_witness:
  "call (spec_ops True) (ObjectInstance ''seg'' ''lbl'' True)
     [(''seg'', Vol [1, 1, 2] [5, 5]), (''seg_mask'', Vol [3] [1, 1, 1])] []
   = Raise ShapeError [(''seg'', Vol [1, 1, 2] [5, 5]), (''seg_mask'', Vol [3] [1, 1, 1])]
   \<and> assigns_last (ObjectInstance ''seg'' ''lbl'' True)
   \<and> call (spec_ops True) (Segmentation ''seg'' ''out'' False)
       [(''seg'', Vol [1, 1, 2] [5, 5]), (''seg_mask'', Vol [3] [1, 1, 1])] []
     = Raise ShapeError [(''seg'', Vol [1, 1, 2] [5, 5]), (''seg_mask'', Vol [3] [1, 1, 1]),
                         (''out'', Vol [1, 1, 2] [5, 5])]
   \<and> ([(''seg'', Vol [1, 1, 2] [5, 5]), (''seg_mask'', Vol [3] [1, 1, 1]),
        (''out'', Vol [1, 1, 2] [5, 5])]
        = [(''seg'', Vol [1, 1, 2] [5, 5]), (''seg_mask'', Vol [3] [1, 1, 1])]
      \<or> (\<exists>lbl. [(''seg'', Vol [1, 1, 2] [5, 5]), (''seg_mask'', Vol [3] [1, 1, 1]),
                 (''out'', Vol [1, 1, 2] [5, 5])]
                = AList.update ''out'' lbl
                    [(''seg'', Vol [1, 1, 2] [5, 5]), (''seg_mask'', Vol [3] [1, 1, 1])]))"
proof -
  have r1: "call (spec_ops True) (ObjectInstance ''seg'' ''lbl'' True)
     [(''seg'', Vol [1, 1, 2] [5, 5]), (''seg_mask'', Vol [3] [1, 1, 1])] []
   = Raise ShapeError [(''seg'', Vol [1, 1, 2] [5, 5]), (''seg_mask'', Vol [3] [1, 1, 1])]"
    by code_simp
  have a1: "assigns_last (ObjectInstance ''seg'' ''lbl'' True)" by simp
  have r2: "call (spec_ops True) (Segmentation ''seg'' ''out'' False)
       [(''seg'', Vol [1, 1, 2] [5, 5]), (''seg_mask'', Vol [3] [1, 1, 1])] []
     = Raise ShapeError [(''seg'', Vol [1, 1, 2] [5, 5]), (''seg_mask'', Vol [3] [1, 1, 1]),
                         (''out'', Vol [1, 1, 2] [5, 5])]"
    by code_simp
  from failure_leaves_sample [OF r2] r1 a1 r2 show ?thesis by blast
qed

text \<open>
  Claim C5, as stated, fails: the same sample given to a \<^verbatim>\<open>CenterInstance\<close> with the
  mask key \<^verbatim>\<open>ctr\<close> raises in the rebalancing of the \<^verbatim>\<open>ObjectInstance\<close> logic, and
  the sample then has the key \<^verbatim>\<open>ctr\<close>, which it did not have.
\<close>

theorem CenterInstance_failure_keeps_mask:
  "call (spec_ops True) (CenterInstance ''seg'' ''lbl'' (Some ''ctr'') True)
     [(''seg'', Vol [1, 1, 2] [5, 5]), (''seg_mask'', Vol [3] [1, 1, 1])] []
   = Raise ShapeError
       [(''seg'', Vol [1, 1, 2] [5, 5]), (''seg_mask'', Vol [3] [1, 1, 1]),
        (''ctr'', Vol [1, 1, 2] [0, 1])]"
  by code_simp

text \<open>
  The exception that the claim itself names: the crop of \<^verbatim>\<open>Affinity\<close> raises at the
  entry \<^verbatim>\<open>tiny\<close>, into which the box does not fit, when \<^verbatim>\<open>seg\<close> has been cropped and
  \<^verbatim>\<open>aff\<close> and \<^verbatim>\<open>aff_mask\<close> have not.
\<close>

lemma Affinity_crop_fails_midway:
  "call (spec_ops True)
     (Affinity [(0, 0, 1)] ''seg'' ''aff'' (Some (0, 1, 0)) (Some (1, 1, 2)) None False)
     [(''seg'', Vol [1, 2, 2] [1, 1, 2, 2]), (''tiny'', Vol [1, 1, 1] [9])] []
   = Raise ShapeError
       [(''seg'', Vol [1, 1, 2] [2, 2]), (''tiny'', Vol [1, 1, 1] [9]),
        (''aff'', Vol [1, 1, 2, 2] [1, 0, 1, 0]), (''aff_mask'', Vol [1, 1, 2, 2] [1, 0, 1, 0])]"
  by code_simp

section \<open>The center mask of \<^verbatim>\<open>CenterInstance\<close>\<close>

lemma last3_append3 [simp]: "last3 (lead @ [z, y, x]) = [z, y, x]"
  by (simp add: last3_def)

lemma leading_append3 [simp]: "leading (lead @ [z, y, x]) = lead"
  by (simp add: leading_def)

lemma index2_less: "j < y \<Longrightarrow> k < x \<Longrightarrow> j * x + k < y * (x::nat)"
proof -
  assume "j < y" "k < x"
  then have "j * x + k < Suc j * x" by simp
  also from \<open>j < y\<close> have "Suc j * x \<le> y * x" by (intro mult_le_mono1) simp
  finally show ?thesis .
qed

lemma index3_less: "i < z \<Longrightarrow> j < y \<Longrightarrow> k < x \<Longrightarrow> (i * y + j) * x + k < z * y * (x::nat)"
  using index2_less [of "i * y + j" "z * y" k x] index2_less [of i z j y] by simp

lemma index4_less:
  "b < l \<Longrightarrow> i < z \<Longrightarrow> j < y \<Longrightarrow> k < x
   \<Longrightarrow> ((b * z + i) * y + j) * x + k < l * z * y * (x::nat)"
  using index3_less [of "b * z + i" "l * z" j y k x] index2_less [of b l i z] by simp

lemma index4_split:
  "((b * z + i) * y + j) * x + k = b * (z * y * x) + ((i * y + j) * x + (k::nat))"
  by (simp add: algebra_simps)

lemma index2_inj:
  assumes "k < x" "k' < x" "a * x + k = a' * x + (k'::nat)"
  shows "a = a' \<and> k = k'"
proof -
  from assms have "(a * x + k) div x = (a' * x + k') div x"
    and "(a * x + k) mod x = (a' * x + k') mod x"
    by simp_all
  with assms(1,2) show ?thesis by simp
qed

lemma index3_inj:
  assumes "j < y" "j' < y" "k < x" "k' < x"
    and "(i * y + j) * x + k = (i' * y + j') * x + (k'::nat)"
  shows "i = i' \<and> j = j' \<and> k = k'"
proof -
  from index2_inj [OF assms(3,4,5)] have "i * y + j = i' * y + j'" "k = k'" by simp_all
  with index2_inj [OF assms(1,2)] show ?thesis by simp
qed

lemma center_mask_value:
  assumes "map_of sample source = Some seg" and "shape seg = lead @ [z, y, x]"
    and "0 < z" "0 < y" "0 < x"
  shows "center_mask sample source =
     Inr (Vol (shape seg)
       (map (\<lambda>p. if p mod (z * y * x) = (z div 2 * y + y div 2) * x + x div 2 then 1 else 0)
            [0..<prod_list (shape seg)]))"
  using assms by (simp add: center_mask_def set_last3_def zeros_def cong: map_cong)

lemma mask_key_neq [simp]: "t @ ''_mask'' \<noteq> t" "t \<noteq> t @ ''_mask''"
  by simp_all

lemma commit_Return_form:
  "commit s t r = Return s' \<Longrightarrow> \<exists>lbl msk. r = Inr (lbl, msk) \<and> s' = update_sample s t lbl msk"
  by (auto simp: commit_def split: sum.splits prod.splits)

lemma map_of_update_sample:
  "map_of (update_sample s t lbl msk) k =
     (if k = t @ ''_mask'' then Some msk else if k = t then Some lbl else map_of s k)"
  by (simp add: update_sample_def update_conv')

text \<open>
  Claim C9, as the code has it. Let the source be in the sample, with at least three
  axes, none of the last three empty, and let \<^verbatim>\<open>CenterInstance\<close> have the mask key
  \<open>mk\<close>. Then calling it is calling the \<^verbatim>\<open>ObjectInstance\<close> logic on the sample in
  which \<open>mk\<close> has first been assigned an array \<open>m\<close> of the source's shape, which is 1.0
  at \<open>(z div 2, y div 2, x div 2)\<close> of the last three axes, for every index \<open>b\<close> of the
  leading axes, and 0.0 at every other entry: a single 1.0 if the leading axes have a
  single index. If the call returns and \<open>mk\<close> is neither the target key nor the key of
  its mask, \<open>m\<close> is what the returned sample has under \<open>mk\<close>.
\<close>

theorem CenterInstance_center_mask:
  assumes "map_of sample source = Some seg" and "shape seg = lead @ [z, y, x]"
    and "0 < z" and "0 < y" and "0 < x"
  shows "\<exists>m. call p (CenterInstance source tgt (Some mk) rebalance) sample kw
               = call p (ObjectInstance source tgt rebalance) (AList.update mk m sample) kw
           \<and> shape m = shape seg
           \<and> length (vals m) = prod_list (shape seg)
           \<and> (\<forall>b<prod_list lead. \<forall>i<z. \<forall>j<y. \<forall>k<x.
                 at4 m b i j k = (if i = z div 2 \<and> j = y div 2 \<and> k = x div 2 then 1 else 0))
           \<and> (\<forall>sample'. call p (CenterInstance source tgt (Some mk) rebalance) sample kw
                           = Return sample'
                 \<and> mk \<noteq> tgt \<and> mk \<noteq> tgt @ ''_mask'' \<longrightarrow> map_of sample' mk = Some m)"
proof -
  let ?c = "(z div 2 * y + y div 2) * x + x div 2"
  let ?m = "Vol (shape seg) (map (\<lambda>p. if p mod (z * y * x) = ?c then 1 else 0)
                                  [0..<prod_list (shape seg)])"
  have cm: "center_mask sample source = Inr ?m"
    using assms by (rule center_mask_value)
  have c2: "y div 2 < y" and c3: "x div 2 < x" using assms(4,5) by simp_all
  have val: "at4 ?m b i j k = (if i = z div 2 \<and> j = y div 2 \<and> k = x div 2 then 1 else 0)"
    if "b < prod_list lead" "i < z" "j < y" "k < x" for b i j k
  proof -
    have lt: "((b * z + i) * y + j) * x + k < prod_list (shape seg)"
      using index4_less [OF that] assms(2) by (simp add: mult.assoc)
    have md: "(((b * z + i) * y + j) * x + k) mod (z * y * x) = (i * y + j) * x + k"
      using index3_less [OF that(2,3,4)] by (simp add: index4_split)
    have "((i * y + j) * x + k = ?c) \<longleftrightarrow> (i = z div 2 \<and> j = y div 2 \<and> k = x div 2)"
      using index3_inj [OF that(3) c2 that(4) c3] by blast
    with lt md show ?thesis by (simp add: at4_def assms(2))
  qed
  have 1: "call p (CenterInstance source tgt (Some mk) rebalance) sample kw
          = call p (ObjectInstance source tgt rebalance) (AList.update mk ?m sample) kw"
    by (simp add: CenterInstance_call_def cm)
  have 2: "shape ?m = shape seg" by simp
  have 3: "length (vals ?m) = prod_list (shape seg)" by simp
  have 4: "\<forall>b<prod_list lead. \<forall>i<z. \<forall>j<y. \<forall>k<x.
             at4 ?m b i j k = (if i = z div 2 \<and> j = y div 2 \<and> k = x div 2 then 1 else 0)"
    using val by blast
  have 5: "map_of sample' mk = Some ?m"
    if "call p (CenterInstance source tgt (Some mk) rebalance) sample kw = Return sample'"
      and "mk \<noteq> tgt" and "mk \<noteq> tgt @ ''_mask''" for sample'
  proof -
    from that(1) 1 have
      "commit (AList.update mk ?m sample) tgt
         (ObjectInstance_label p source rebalance (AList.update mk ?m sample) kw)
       = Return sample'"
      by (simp add: ObjectInstance_call_def)
    from commit_Return_form [OF this] obtain lbl msk where
      "sample' = update_sample (AList.update mk ?m sample) tgt lbl msk"
      by blast
    with that(2,3) show ?thesis by (simp add: map_of_update_sample update_conv')
  qed
  from 1 2 3 4 5 show ?thesis by blast
qed

theorem CenterInstance_center_mask_witness:
  "map_of [(''seg'', Vol [1, 1, 3] [5, 7, 5])] ''seg'' = Some (Vol [1, 1, 3] [5, 7, 5])
   \<and> shape (Vol [1, 1, 3] [5, 7, 5]) = [] @ [1, 1, 3]
   \<and> (0::nat) < 1 \<and> (0::nat) < 1 \<and> (0::nat) < 3
   \<and> (\<exists>m. call (spec_ops True) (CenterInstance ''seg'' ''lbl'' (Some ''ctr'') True)
               [(''seg'', Vol [1, 1, 3] [5, 7, 5])] []
             = call (spec_ops True) (ObjectInstance ''seg'' ''lbl'' True)
                 (AList.update ''ctr'' m [(''seg'', Vol [1, 1, 3] [5, 7, 5])]) []
           \<and> shape m = shape (Vol [1, 1, 3] [5, 7, 5])
           \<and> length (vals m) = prod_list (shape (Vol [1, 1, 3] [5, 7, 5]))
           \<and> (\<forall>b<prod_list []. \<forall>i<1. \<forall>j<1. \<forall>k<3.
                 at4 m b i j k = (if i = 1 div 2 \<and> j = 1 div 2 \<and> k = 3 div 2 then 1 else 0))
           \<and> (\<forall>sample'. call (spec_ops True) (CenterInstance ''seg'' ''lbl'' (Some ''ctr'') True)
                             [(''seg'', Vol [1, 1, 3] [5, 7, 5])] [] = Return sample'
                 \<and> ''ctr'' \<noteq> ''lbl'' \<and> ''ctr'' \<noteq> ''lbl'' @ ''_mask''
                 \<longrightarrow> map_of sample' ''ctr'' = Some m))"
proof -
  have h1: "map_of [(''seg'', Vol [1, 1, 3] [5, 7, 5])] ''seg'' = Some (Vol [1, 1, 3] [5, 7, 5])"
    by simp
  have h2: "shape (Vol [1, 1, 3] [5, 7, 5]) = [] @ [1, 1, 3]" by simp
  have h3: "(0::nat) < 1" and h4: "(0::nat) < 3" by simp_all
  from CenterInstance_center_mask [OF h1 h2 h3 h3 h4, where p = "spec_ops True"
      and tgt = "''lbl''" and mk = "''ctr''" and rebalance = True and kw = "[]"]
    h1 h2 h3 h4
  show ?thesis by blast
qed

text \<open>
  Claim C9, as stated, fails: for a source of shape \<open>(2, 1, 1, 1)\<close> the mask has two
  entries 1.0, one in each channel, both in the mask the code builds and in the sample
  the call returns.
\<close>

theorem CenterInstance_mask_two_channels:
  "center_mask [(''seg'', Vol [2, 1, 1, 1] [4, 4])] ''seg'' = Inr (Vol [2, 1, 1, 1] [1, 1])
   \<and> call (spec_ops True) (CenterInstance ''seg'' ''lbl'' (Some ''ctr'') False)
         [(''seg'', Vol [2, 1, 1, 1] [4, 4])] [(''object_id'', Some 4)]
       = Return [(''seg'', Vol [2, 1, 1, 1] [4, 4]), (''ctr'', Vol [2, 1, 1, 1] [1, 1]),
                 (''lbl'', Vol [2, 1, 1, 1] [1, 1]), (''lbl_mask'', Vol [2, 1, 1, 1] [1, 1])]"
  by code_simp

section \<open>The label of \<^verbatim>\<open>ObjectInstance\<close>\<close>

lemma ObjectInstance_label_Inr:
  assumes "ObjectInstance_label p source rebalance s kw = Inr (lbl, msk)"
  shows "\<exists>seg. map_of s source = Some seg \<and> binarize_object p seg (object_id_of kw) = Inr lbl"
  using assms
  by (auto simp: ObjectInstance_label_def Transform_extract_def bind_e_def
           split: option.splits sum.splits if_splits)

lemma binarize_object_spec_Inr:
  assumes "binarize_object_spec seg (object_id_of kw) = Inr lbl"
  shows "\<exists>oid. target_id kw seg = Some oid
           \<and> lbl = Vol (shape seg) (map (\<lambda>a. if a = oid then 1 else 0) (vals seg))"
  using assms
  by (auto simp: binarize_object_spec_def object_id_of_def target_id_def
           split: option.splits)

text \<open>
  Claim C8, with \<^verbatim>\<open>tf.binarize_object\<close> as the specification describes it. When
  \<^verbatim>\<open>ObjectInstance\<close> returns, the source \<open>seg\<close> is in the sample it was given, there is
  a target ID \<open>oid\<close> (the call parameter \<^verbatim>\<open>object_id\<close> when supplied, else the ID at the
  center voxel of \<open>seg\<close>), and the returned sample has under the target key a label of
  the shape of \<open>seg\<close> that is 1.0 exactly at the voxels where \<open>seg\<close> is \<open>oid\<close> and 0.0 at
  all others.
\<close>

theorem ObjectInstance_binarizes_target:
  assumes "binarize_object p = binarize_object_spec"
    and "call p (ObjectInstance source tgt rebalance) sample kw = Return sample'"
  shows "\<exists>seg lbl oid. map_of sample source = Some seg \<and> target_id kw seg = Some oid
           \<and> map_of sample' tgt = Some lbl \<and> shape lbl = shape seg
           \<and> length (vals lbl) = length (vals seg)
           \<and> (\<forall>i<length (vals seg). vals lbl ! i = (if vals seg ! i = oid then 1 else 0))"
proof -
  from assms(2) obtain lbl msk where
    l: "ObjectInstance_label p source rebalance sample kw = Inr (lbl, msk)" and
    s': "sample' = update_sample sample tgt lbl msk"
    by (auto simp: ObjectInstance_call_def dest: commit_Return_form)
  from ObjectInstance_label_Inr [OF l] assms(1) obtain seg where
    seg: "map_of sample source = Some seg" and
    b: "binarize_object_spec seg (object_id_of kw) = Inr lbl"
    by auto
  from binarize_object_spec_Inr [OF b] obtain oid where
    oid: "target_id kw seg = Some oid" and
    lbl: "lbl = Vol (shape seg) (map (\<lambda>a. if a = oid then 1 else 0) (vals seg))"
    by auto
  from s' have "map_of sample' tgt = Some lbl" by (simp add: map_of_update_sample)
  with seg oid lbl show ?thesis by simp
qed

theorem ObjectInstance_binarizes_target_witness:
  "binarize_object (spec_ops True) = binarize_object_spec
   \<and> call (spec_ops True) (ObjectInstance ''seg'' ''lbl'' True)
         [(''seg'', Vol [1, 1, 3] [5, 7, 5])] []
       = Return [(''seg'', Vol [1, 1, 3] [5, 7, 5]), (''lbl'', Vol [1, 1, 3] [0, 1, 0]),
                 (''lbl_mask'', Vol [1, 1, 3] [3 / 4, 3 / 2, 3 / 4])]
   \<and> (\<exists>seg lbl oid.
         map_of [(''seg'', Vol [1, 1, 3] [5, 7, 5])] ''seg'' = Some seg
         \<and> target_id [] seg = Some oid
         \<and> map_of [(''seg'', Vol [1, 1, 3] [5, 7, 5]), (''lbl'', Vol [1, 1, 3] [0, 1, 0]),
                    (''lbl_mask'', Vol [1, 1, 3] [3 / 4, 3 / 2, 3 / 4])] ''lbl'' = Some lbl
         \<and> shape lbl = shape seg
         \<and> length (vals lbl) = length (vals seg)
         \<and> (\<forall>i<length (vals seg). vals lbl ! i = (if vals seg ! i = oid then 1 else 0)))"
proof -
  have h1: "binarize_object (spec_ops True) = binarize_object_spec"
    by (simp add: spec_ops_def)
  have h2: "call (spec_ops True) (ObjectInstance ''seg'' ''lbl'' True)
         [(''seg'', Vol [1, 1, 3] [5, 7, 5])] []
       = Return [(''seg'', Vol [1, 1, 3] [5, 7, 5]), (''lbl'', Vol [1, 1, 3] [0, 1, 0]),
                 (''lbl_mask'', Vol [1, 1, 3] [3 / 4, 3 / 2, 3 / 4])]"
    by code_simp
  from ObjectInstance_binarizes_target [OF h1 h2] h1 h2 show ?thesis by blast
qed

section \<open>\<^verbatim>\<open>Segmentation\<close> applied twice\<close>







section \<open>The crop of \<^verbatim>\<open>Affinity\<close>\<close>

lemma last3_leading: "last3 sh = [z, y, x] \<Longrightarrow> sh = leading sh @ [z, y, x]"
  unfolding last3_def leading_def by (metis append_take_drop_id)

lemma div_mod_index:
  assumes "r < (n::nat)"
  shows "(a * n + r) div n = a" and "(a * n + r) mod n = r"
  using assms by simp_all

lemma sub_box_eq:
  "last3 (shape v) = [z, y, x]
   \<Longrightarrow> sub_box v (oz, oy, ox) (sz, sy, sx) =
       Vol (leading (shape v) @ [sz, sy, sx])
         (map (\<lambda>q. vals v ! (((q div (sz * sy * sx) * z + oz + q div (sy * sx) mod sz) * y
                                 + oy + q div sx mod sy) * x + ox + q mod sx))
              [0..<prod_list (leading (shape v)) * sz * sy * sx])"
  by (simp add: sub_box_def leading_def Let_def)

lemma sub_box_shape:
  "last3 (shape v) = [z, y, x]
   \<Longrightarrow> shape (sub_box v (oz, oy, ox) (sz, sy, sx)) = leading (shape v) @ [sz, sy, sx]"
  by (simp add: sub_box_eq)

lemma sub_box_at4:
  assumes l3: "last3 (shape v) = [z, y, x]"
    and b: "b < prod_list (leading (shape v))" and i: "i < sz" and j: "j < sy" and k: "k < sx"
  shows "at4 (sub_box v (oz, oy, ox) (sz, sy, sx)) b i j k = at4 v b (oz + i) (oy + j) (ox + k)"
proof -
  let ?q = "((b * sz + i) * sy + j) * sx + k"
  let ?n = "prod_list (leading (shape v)) * sz * sy * sx"
  have lt: "?q < ?n" using index4_less [OF b i j k] .
  have k': "?q mod sx = k" using k by simp
  have j': "?q div sx mod sy = j" using j k by simp
  have e1: "?q = (b * sz + i) * (sy * sx) + (j * sx + k)" by (simp add: algebra_simps)
  have "?q div (sy * sx) = b * sz + i"
    unfolding e1 using index2_less [OF j k] by (rule div_mod_index(1))
  then have i': "?q div (sy * sx) mod sz = i" using i by simp
  have e2: "?q = b * (sz * sy * sx) + ((i * sy + j) * sx + k)" by (simp add: algebra_simps)
  have b': "?q div (sz * sy * sx) = b"
    unfolding e2 using index3_less [OF i j k] by (rule div_mod_index(1))
  have "at4 (sub_box v (oz, oy, ox) (sz, sy, sx)) b i j k
          = vals (sub_box v (oz, oy, ox) (sz, sy, sx)) ! ?q"
    by (simp add: at4_def sub_box_eq [OF l3])
  also have "\<dots> = vals v ! (((b * z + oz + i) * y + oy + j) * x + ox + k)"
    using lt i j k by (simp add: sub_box_eq [OF l3] k' j' i' b' del: upt_Suc)
  also have "\<dots> = at4 v b (oz + i) (oy + j) (ox + k)"
    using l3 by (simp add: at4_def add.assoc)
  finally show ?thesis .
qed

lemma update_middle:
  "k \<notin> fst ` set pre \<Longrightarrow> AList.update k v' (pre @ (k, v) # rest) = pre @ (k, v') # rest"
  by (induction pre) auto

text \<open>
  The loop over the items of a dictionary, when every call of \<^verbatim>\<open>tf.crop\<close> returns:
  after the entries \<open>pre\<close> the sample has these cropped and the others as they were.
\<close>

lemma crop_items_all:
  assumes "distinct (map fst (pre @ kvs))"
    and "\<forall>(k, v) \<in> set kvs. crop p v off cs = Inr (f v)"
  shows "crop_items p off cs kvs (map (\<lambda>(k, v). (k, f v)) pre @ kvs)
           = Return (map (\<lambda>(k, v). (k, f v)) (pre @ kvs))"
  using assms
proof (induction kvs arbitrary: pre)
  case Nil
  then show ?case by simp
next
  case (Cons kv kvs)
  obtain k v where kv: "kv = (k, v)" by (cases kv)
  from Cons.prems(1) kv have notin: "k \<notin> fst ` set (map (\<lambda>(k, v). (k, f v)) pre)"
    by (auto simp: image_iff)
  from Cons.prems(2) kv have c: "crop p v off cs = Inr (f v)" by simp
  from Cons.prems kv have
    "crop_items p off cs kvs (map (\<lambda>(k, v). (k, f v)) (pre @ [(k, v)]) @ kvs)
       = Return (map (\<lambda>(k, v). (k, f v)) ((pre @ [(k, v)]) @ kvs))"
    by (intro Cons.IH) simp_all
  with c notin kv show ?case by (simp add: update_middle)
qed

lemma box_fits_last3:
  "box_fits sh off bsize \<Longrightarrow> \<exists>z y x. last3 sh = [z, y, x]"
  by (auto simp: box_fits_def split: list.splits prod.splits)

lemma crop_spec_fits:
  "box_fits (shape v) (oz, oy, ox) (sz, sy, sx)
   \<Longrightarrow> crop_spec v (oz, oy, ox) (Some (sz, sy, sx))
         = Inr (sub_box v (nat oz, nat oy, nat ox) (nat sz, nat sy, nat sx))"
  by (simp add: crop_spec_def)

lemma Affinity_call_uncropped:
  "Affinity_call p dst source tgt None csize base_w recomp s
     = commit s tgt (Affinity_label p dst source base_w recomp s)"
  by (cases "commit s tgt (Affinity_label p dst source base_w recomp s)")
     (simp_all add: Affinity_call_def)

lemma Affinity_call_cropped:
  "commit s tgt (Affinity_label p dst source base_w recomp s) = Return s1
   \<Longrightarrow> Affinity_call p dst source tgt (Some off) csize base_w recomp s
         = crop_items p off csize s1 s1"
  by (simp add: Affinity_call_def)

lemma map_fst_map_snd: "map fst (map (\<lambda>(k, v). (k, f v)) xs) = map fst xs"
  by (induction xs) auto

lemma map_of_map_snd: "map_of (map (\<lambda>(k, v). (k, f v)) xs) k = map_option f (map_of xs k)"
  by (induction xs) auto

lemma crop_items_Return_all:
  "crop_items p off cs kvs s = Return s' \<Longrightarrow> (k, v) \<in> set kvs \<Longrightarrow> \<exists>v'. crop p v off cs = Inr v'"
proof (induction kvs arbitrary: s)
  case Nil
  then show ?case by simp
next
  case (Cons kv kvs)
  obtain k0 v0 where kv: "kv = (k0, v0)" by (cases kv)
  from Cons.prems(1) kv obtain v0' where
    c: "crop p v0 off cs = Inr v0'" and
    r: "crop_items p off cs kvs (AList.update k0 v0' s) = Return s'"
    by (auto split: sum.splits)
  show ?case
  proof (cases "(k, v) = (k0, v0)")
    case True
    with c show ?thesis by auto
  next
    case False
    with Cons.prems(2) kv have "(k, v) \<in> set kvs" by auto
    from Cons.IH [OF r this] show ?thesis .
  qed
qed

lemma crop_spec_Inr:
  "crop_spec v off (Some bsize) = Inr v' \<Longrightarrow> box_fits (shape v) off bsize"
  by (auto simp: crop_spec_def split: if_splits)

text \<open>
  With a crop offset and a crop size, \<^verbatim>\<open>Affinity\<close> returns only if the box fits into
  every entry: the hypothesis of the next theorem holds whenever there is a cropped
  sample to speak of.
\<close>

lemma Affinity_cropped_only_if_fits:
  assumes "crop p = crop_spec"
    and "call p (Affinity dst source tgt (Some off) (Some bsize) base_w recomp) sample kw
           = Return cropped"
  shows "\<exists>uncropped. call p (Affinity dst source tgt None csize base_w recomp) sample kw
                        = Return uncropped
           \<and> (\<forall>(k, v) \<in> set uncropped. box_fits (shape v) off bsize)"
proof (cases "commit sample tgt (Affinity_label p dst source base_w recomp sample)")
  case (Return s1)
  with assms(2) have "crop_items p off (Some bsize) s1 s1 = Return cropped"
    by (simp add: Affinity_call_cropped)
  from crop_items_Return_all [OF this] assms(1)
  have "\<forall>(k, v) \<in> set s1. box_fits (shape v) off bsize"
    by (auto dest: crop_spec_Inr)
  with Return show ?thesis by (simp add: Affinity_call_uncropped)
next
  case (Raise e s1)
  with assms(2) show ?thesis by (simp add: Affinity_call_def)
qed

text \<open>
  Claim C4, with \<^verbatim>\<open>tf.crop\<close> as the specification describes it. Let the sample be a
  dictionary (no key twice), let \<open>uncropped\<close> be what \<^verbatim>\<open>Affinity\<close> returns without a
  crop offset, and let the box of size \<open>(sz, sy, sx)\<close> at \<open>(oz, oy, ox)\<close> fit into every
  entry of \<open>uncropped\<close>. Then the same \<^verbatim>\<open>Affinity\<close> with that crop offset and crop size
  returns a sample \<open>cropped\<close> with the same keys in the same order, which are those of
  the given sample and the target and its mask; and every entry \<open>v'\<close> of \<open>cropped\<close> has
  the leading axes of the entry \<open>v\<close> of \<open>uncropped\<close> under the same key, followed by the
  crop size, and at every index the value that \<open>v\<close> has at that index shifted by the
  offset.
\<close>

theorem Affinity_crops_every_entry:
  assumes "crop p = crop_spec"
    and "distinct (map fst sample)"
    and "call p (Affinity dst source tgt None csize base_w recomp) sample kw = Return uncropped"
    and "\<forall>(k, v) \<in> set uncropped. box_fits (shape v) (oz, oy, ox) (sz, sy, sx)"
  shows "\<exists>cropped.
      call p (Affinity dst source tgt (Some (oz, oy, ox)) (Some (sz, sy, sx)) base_w recomp)
        sample kw = Return cropped
      \<and> keys cropped = insert (tgt @ ''_mask'') (insert tgt (keys sample))
      \<and> map fst cropped = map fst uncropped
      \<and> (\<forall>k v. map_of uncropped k = Some v \<longrightarrow>
           (\<exists>v'. map_of cropped k = Some v'
               \<and> shape v' = leading (shape v) @ [nat sz, nat sy, nat sx]
               \<and> (\<forall>b<prod_list (leading (shape v)). \<forall>i<nat sz. \<forall>j<nat sy. \<forall>l<nat sx.
                     at4 v' b i j l = at4 v b (nat oz + i) (nat oy + j) (nat ox + l))))"
proof -
  let ?f = "\<lambda>v. sub_box v (nat oz, nat oy, nat ox) (nat sz, nat sy, nat sx)"
  let ?cropped = "map (\<lambda>(k, v). (k, ?f v)) uncropped"
  from assms(3) have c: "commit sample tgt (Affinity_label p dst source base_w recomp sample)
                           = Return uncropped"
    by (simp add: Affinity_call_uncropped)
  then obtain lbl msk where u: "uncropped = update_sample sample tgt lbl msk"
    by (auto dest: commit_Return_form)
  with assms(2) have d: "distinct (map fst ([] @ uncropped))"
    by (simp add: update_sample_def distinct_update)
  from assms(1,4) have
    "\<forall>(k, v) \<in> set uncropped. crop p v (oz, oy, ox) (Some (sz, sy, sx)) = Inr (?f v)"
    by (auto simp: crop_spec_fits)
  from crop_items_all [OF d this] have
    "crop_items p (oz, oy, ox) (Some (sz, sy, sx)) uncropped uncropped = Return ?cropped"
    by simp
  with c have 1: "call p (Affinity dst source tgt (Some (oz, oy, ox)) (Some (sz, sy, sx)) base_w
                    recomp) sample kw = Return ?cropped"
    by (simp add: Affinity_call_cropped)
  have 2: "map fst ?cropped = map fst uncropped" by (rule map_fst_map_snd)
  have "keys ?cropped = keys uncropped"
    unfolding keys_def set_map [symmetric] by (simp only: 2)
  with u have 3: "keys ?cropped = insert (tgt @ ''_mask'') (insert tgt (keys sample))"
    by (simp add: update_sample_def)
  have 4: "\<exists>v'. map_of ?cropped k = Some v'
               \<and> shape v' = leading (shape v) @ [nat sz, nat sy, nat sx]
               \<and> (\<forall>b<prod_list (leading (shape v)). \<forall>i<nat sz. \<forall>j<nat sy. \<forall>l<nat sx.
                     at4 v' b i j l = at4 v b (nat oz + i) (nat oy + j) (nat ox + l))"
    if "map_of uncropped k = Some v" for k v
  proof -
    from that have "(k, v) \<in> set uncropped" by (rule map_of_SomeD)
    with assms(4) have "box_fits (shape v) (oz, oy, ox) (sz, sy, sx)" by auto
    then obtain z y x where l3: "last3 (shape v) = [z, y, x]"
      by (auto dest: box_fits_last3)
    from that have "map_of ?cropped k = Some (?f v)" by (simp add: map_of_map_snd)
    moreover have "shape (?f v) = leading (shape v) @ [nat sz, nat sy, nat sx]"
      using l3 by (rule sub_box_shape)
    moreover have "\<forall>b<prod_list (leading (shape v)). \<forall>i<nat sz. \<forall>j<nat sy. \<forall>l<nat sx.
                     at4 (?f v) b i j l = at4 v b (nat oz + i) (nat oy + j) (nat ox + l)"
      using sub_box_at4 [OF l3] by blast
    ultimately show ?thesis by blast
  qed
  from 1 2 3 4 show ?thesis by blast
qed

theorem Affinity_crops_every_entry_witness:
  "crop (spec_ops True) = crop_spec
   \<and> distinct (map fst [(''seg'', Vol [1, 2, 2] [1, 1, 2, 2])])
   \<and> call (spec_ops True) (Affinity [(0, 0, 1)] ''seg'' ''aff'' None None None True)
         [(''seg'', Vol [1, 2, 2] [1, 1, 2, 2])] []
       = Return [(''seg'', Vol [1, 2, 2] [1, 1, 2, 2]), (''aff'', Vol [1, 1, 2, 2] [1, 0, 1, 0]),
                 (''aff_mask'', Vol [1, 1, 2, 2] [1, 0, 1, 0])]
   \<and> box_fits (shape (Vol [1, 2, 2] [1, 1, 2, 2])) (0, 1, 0) (1, 1, 2)
   \<and> box_fits (shape (Vol [1, 1, 2, 2] [1, 0, 1, 0])) (0, 1, 0) (1, 1, 2)
   \<and> (\<exists>cropped.
        call (spec_ops True)
          (Affinity [(0, 0, 1)] ''seg'' ''aff'' (Some (0, 1, 0)) (Some (1, 1, 2)) None True)
          [(''seg'', Vol [1, 2, 2] [1, 1, 2, 2])] [] = Return cropped
        \<and> keys cropped = insert (''aff'' @ ''_mask'')
                            (insert ''aff'' (keys [(''seg'', Vol [1, 2, 2] [1, 1, 2, 2])]))
        \<and> map fst cropped = map fst [(''seg'', Vol [1, 2, 2] [1, 1, 2, 2]),
                       (''aff'', Vol [1, 1, 2, 2] [1, 0, 1, 0]),
                       (''aff_mask'', Vol [1, 1, 2, 2] [1, 0, 1, 0])]
        \<and> (\<forall>k v. map_of [(''seg'', Vol [1, 2, 2] [1, 1, 2, 2]),
                       (''aff'', Vol [1, 1, 2, 2] [1, 0, 1, 0]),
                       (''aff_mask'', Vol [1, 1, 2, 2] [1, 0, 1, 0])] k = Some v \<longrightarrow>
             (\<exists>v'. map_of cropped k = Some v'
                 \<and> shape v' = leading (shape v) @ [nat 1, nat 1, nat 2]
                 \<and> (\<forall>b<prod_list (leading (shape v)). \<forall>i<nat 1. \<forall>j<nat 1. \<forall>l<nat 2.
                       at4 v' b i j l = at4 v b (nat 0 + i) (nat 1 + j) (nat 0 + l)))))"
proof -
  have h1: "crop (spec_ops True) = crop_spec" by (simp add: spec_ops_def)
  have h2: "distinct (map fst [(''seg'', Vol [1, 2, 2] [1, 1, 2, 2])])" by simp
  have h3: "call (spec_ops True) (Affinity [(0, 0, 1)] ''seg'' ''aff'' None None None True)
         [(''seg'', Vol [1, 2, 2] [1, 1, 2, 2])] []
       = Return [(''seg'', Vol [1, 2, 2] [1, 1, 2, 2]), (''aff'', Vol [1, 1, 2, 2] [1, 0, 1, 0]),
                 (''aff_mask'', Vol [1, 1, 2, 2] [1, 0, 1, 0])]"
    by code_simp
  have h4: "\<forall>(k, v) \<in> set [(''seg'', Vol [1, 2, 2] [1, 1, 2, 2]),
                       (''aff'', Vol [1, 1, 2, 2] [1, 0, 1, 0]),
                       (''aff_mask'', Vol [1, 1, 2, 2] [1, 0, 1, 0])].
          box_fits (shape v) (0, 1, 0) (1, 1, 2)"
    by (simp add: box_fits_def last3_def)
  have h5: "box_fits (shape (Vol [1, 2, 2] [1, 1, 2, 2])) (0, 1, 0) (1, 1, 2)"
    and h6: "box_fits (shape (Vol [1, 1, 2, 2] [1, 0, 1, 0])) (0, 1, 0) (1, 1, 2)"
    by (simp_all add: box_fits_def last3_def)
  from Affinity_crops_every_entry [OF h1 h2 h3 h4] h1 h2 h3 h5 h6 show ?thesis by blast
qed

end
